theory Spec2Isabelle
  imports
    Complex_Main
    "HOL-Library.Log_Nat"
    "HOL-Library.Multiset"
    "HOL-Library.AList"
    "HOL-Library.Char_ord"
    "HOL-Library.List_Lexorder"
    "HOL-Library.Product_Lexorder"
begin

section \<open>Skybox colour analyzer: a shallow embedding of \<open>skybox_analyzer.py\<close>\<close>

text \<open>
  The module samples pixel colours of skybox screenshots, keyed by the orientation letter
  and the hour in the file name, and assembles a sorted report. Every Python function of
  the module is one HOL function of the same name below. Exceptions are values of the type
  \<open>pyexn\<close>; a function that can raise returns \<open>pyexn + 'a\<close> with \<open>Inl\<close> the exception.
\<close>

datatype pyexn = TypeError | ZeroDivisionError | IndexError | ValueError | OSError

subsection \<open>Python floats\<close>

text \<open>
  A Python \<open>float\<close> is an IEEE 754 binary64 number. A finite float is represented by the
  rational number it denotes, and every arithmetic operation rounds its exact result to
  the nearest number with a 53-bit significand, ties to even (\<open>fl\<close>). The exponent range
  is not bounded in the model: infinities, NaN, subnormal numbers and the sign of zero do
  not occur, because every magnitude the module computes lies between \<open>1 / 1000\<close> and the
  product of an image height and a sample index.

  \<open>ilog2 a\<close> is the binary exponent \<open>\<lfloor>log\<^sub>2 a\<rfloor>\<close> of a positive rational; \<open>bitlen n\<close> is the
  number of binary digits of \<open>n\<close>.
\<close>

definition ilog2 :: "rat \<Rightarrow> int" where
  "ilog2 a = (if 1 \<le> a then bitlen \<lfloor>a\<rfloor> - 1 else - bitlen (\<lceil>1 / a\<rceil> - 1))"

definition round_half_even :: "rat \<Rightarrow> int" where
  "round_half_even q =
     (let f = \<lfloor>q\<rfloor>; d = q - of_int f
      in if d < 1 / 2 then f else if 1 / 2 < d then f + 1
         else if even f then f else f + 1)"

definition fl :: "rat \<Rightarrow> rat" where
  "fl x = (if x = 0 then 0
           else let u = power_int 2 (ilog2 \<bar>x\<bar> - 52)
                in of_int (round_half_even (x / u)) * u)"

text \<open>A float literal of the source text, such as \<open>0.299\<close>, is the nearest float.\<close>

definition float_lit :: "rat \<Rightarrow> rat" where
  "float_lit q = fl q"

text \<open>\<open>float(n)\<close>, the implicit conversion of an \<open>int\<close> operand.\<close>

definition float_of_int :: "int \<Rightarrow> rat" where
  "float_of_int n = fl (of_int n)"

definition float_add :: "rat \<Rightarrow> rat \<Rightarrow> rat" where
  "float_add a b = fl (a + b)"

definition float_mul :: "rat \<Rightarrow> rat \<Rightarrow> rat" where
  "float_mul a b = fl (a * b)"

definition float_div :: "rat \<Rightarrow> rat \<Rightarrow> pyexn + rat" where
  "float_div a b = (if b = 0 then Inl ZeroDivisionError else Inr (fl (a / b)))"

text \<open>\<open>a / b\<close> on two \<open>int\<close>s: the correctly rounded quotient.\<close>

definition int_truediv :: "int \<Rightarrow> int \<Rightarrow> pyexn + rat" where
  "int_truediv a b =
     (if b = 0 then Inl ZeroDivisionError else Inr (fl (of_int a / of_int b)))"

text \<open>
  \<open>round(x, n)\<close> on a float: the exact value of \<open>x\<close> is rounded to \<open>n\<close> decimals, ties to
  even, and the decimal is converted back to the nearest float.
\<close>

definition py_round :: "rat \<Rightarrow> nat \<Rightarrow> rat" where
  "py_round x n = fl (of_int (round_half_even (x * 10 ^ n)) / 10 ^ n)"

text \<open>\<open>int(x)\<close> on a float truncates towards zero.\<close>

definition py_int :: "rat \<Rightarrow> int" where
  "py_int x = (if 0 \<le> x then \<lfloor>x\<rfloor> else \<lceil>x\<rceil>)"

subsection \<open>Formatting\<close>

definition hex_digit :: "nat \<Rightarrow> char" where
  "hex_digit d = ''0123456789abcdef'' ! d"

function hex_digits :: "nat \<Rightarrow> string" where
  "hex_digits n = (if n < 16 then [hex_digit n] else hex_digits (n div 16) @ [hex_digit (n mod 16)])"
  by pat_completeness auto
termination
  by (relation "measure id") auto

declare hex_digits.simps [simp del]

function dec_digits :: "nat \<Rightarrow> string" where
  "dec_digits n = (if n < 10 then [hex_digit n] else dec_digits (n div 10) @ [hex_digit (n mod 10)])"
  by pat_completeness auto
termination
  by (relation "measure id") auto

declare dec_digits.simps [simp del]

text \<open>
  The format specifications \<open>02x\<close> and \<open>02d\<close> on an \<open>int\<close>: sign, then the digits, padded
  with zeros after the sign to a total width of at least two.
\<close>

definition zero_pad2 :: "bool \<Rightarrow> string \<Rightarrow> string" where
  "zero_pad2 neg ds =
     (if neg then CHR ''-'' # ds
      else if length ds < 2 then CHR ''0'' # ds else ds)"

definition format_02x :: "int \<Rightarrow> string" where
  "format_02x n = zero_pad2 (n < 0) (hex_digits (nat \<bar>n\<bar>))"

definition format_02d :: "int \<Rightarrow> string" where
  "format_02d n = zero_pad2 (n < 0) (dec_digits (nat \<bar>n\<bar>))"

definition rgb_to_hex :: "int \<Rightarrow> int \<Rightarrow> int \<Rightarrow> string" where
  "rgb_to_hex r g b = CHR ''#'' # format_02x r @ format_02x g @ format_02x b"

text \<open>The dictionary \<open>{'r': .., 'g': .., 'b': ..}\<close> of \<open>rgb_to_godot\<close> is a triple.\<close>

definition godot_channel :: "int \<Rightarrow> rat" where
  "godot_channel c = py_round (fl (float_of_int c / float_lit 255)) 3"

definition rgb_to_godot :: "int \<Rightarrow> int \<Rightarrow> int \<Rightarrow> rat \<times> rat \<times> rat" where
  "rgb_to_godot r g b = (godot_channel r, godot_channel g, godot_channel b)"

subsection \<open>The file name parser\<close>

text \<open>
  File names are ASCII strings and paths are POSIX paths. \<open>Path(filename).stem\<close> is the
  last component of the path that is neither empty nor \<open>.\<close>, cut before its last dot
  when that dot is neither the first nor the last character.
\<close>

fun split_on :: "char \<Rightarrow> string \<Rightarrow> string list" where
  "split_on c [] = [[]]"
| "split_on c (x # xs) =
     (if x = c then [] # split_on c xs
      else (case split_on c xs of [] \<Rightarrow> [[x]] | p # ps \<Rightarrow> (x # p) # ps))"

definition path_name :: "string \<Rightarrow> string" where
  "path_name p =
     (case filter (\<lambda>s. s \<noteq> [] \<and> s \<noteq> ''.'') (split_on CHR ''/'' p) of
        [] \<Rightarrow> []
      | s # ss \<Rightarrow> last (s # ss))"

text \<open>\<open>s.rfind(c)\<close>: the index of the last occurrence, \<open>-1\<close> when there is none.\<close>

definition rfind :: "char \<Rightarrow> string \<Rightarrow> int" where
  "rfind c s =
     (if c \<in> set s then int (length s) - 1 - int (length (takeWhile (\<lambda>x. x \<noteq> c) (rev s)))
      else - 1)"

definition path_stem :: "string \<Rightarrow> string" where
  "path_stem p =
     (let name = path_name p; i = rfind CHR ''.'' name
      in if 0 < i \<and> i < int (length name) - 1 then take (nat i) name else name)"

definition upper_char :: "char \<Rightarrow> char" where
  "upper_char c =
     (let n = of_char c :: nat in if 97 \<le> n \<and> n \<le> 122 then char_of (n - 32) else c)"

definition upper :: "string \<Rightarrow> string" where
  "upper s = map upper_char s"

definition is_digit :: "char \<Rightarrow> bool" where
  "is_digit c = (48 \<le> (of_char c :: nat) \<and> (of_char c :: nat) \<le> 57)"

definition digit_val :: "char \<Rightarrow> int" where
  "digit_val c = int (of_char c) - 48"

text \<open>
  \<open>re.match(r'^([WENSU])(\d{2})$', name)\<close>, returning the two groups. Without the
  \<open>MULTILINE\<close> flag, \<open>$\<close> matches at the end of the string and also just before a
  newline that is the last character of the string.
\<close>

definition re_match :: "string \<Rightarrow> (string \<times> string) option" where
  "re_match name =
     (case name of
        [c, d1, d2] \<Rightarrow>
          if c \<in> set ''WENSU'' \<and> is_digit d1 \<and> is_digit d2 then Some ([c], [d1, d2])
          else None
      | [c, d1, d2, e] \<Rightarrow>
          if c \<in> set ''WENSU'' \<and> is_digit d1 \<and> is_digit d2 \<and> e = CHR 0x0A
          then Some ([c], [d1, d2])
          else None
      | _ \<Rightarrow> None)"

text \<open>\<open>int(hour_str)\<close> on a string of decimal digits.\<close>

definition int_of_digits :: "string \<Rightarrow> int" where
  "int_of_digits s = foldl (\<lambda>a c. 10 * a + digit_val c) 0 s"

text \<open>The result \<open>(None, None)\<close> is \<open>None\<close>.\<close>

definition parse_orientation_hour_from_filename :: "string \<Rightarrow> (string \<times> int) option" where
  "parse_orientation_hour_from_filename filename =
     (let name = upper (path_stem filename)
      in case re_match name of
           Some (orient, hour_str) \<Rightarrow>
             (let hour = int_of_digits hour_str
              in if 0 \<le> hour \<and> hour \<le> 23 then Some (orient, hour) else None)
         | None \<Rightarrow> None)"

subsection \<open>Images and colour samples\<close>

text \<open>
  \<open>getpixel\<close> of the imaging library returns an \<open>int\<close> for a single-band image, a
  \<open>float\<close> for mode \<open>F\<close>, and a tuple of \<open>int\<close>s for a multi-band image.
\<close>

datatype pixel = PInt int | PFloat rat | PTuple "int list"

text \<open>
  An image is what the module uses of the imaging library's object: \<open>img.size\<close> as
  (width, height), \<open>img.getpixel\<close>, which may raise at any coordinate, and
  \<open>list(img.resize(s).getdata())\<close>. A read decides for itself whether it fails: the
  library checks the coordinates and decodes the file lazily.
\<close>

record image =
  img_size :: "int \<times> int"
  getpixel :: "int \<times> int \<Rightarrow> pyexn + pixel"
  resize_getdata :: "int \<times> int \<Rightarrow> pyexn + pixel list"

record color =
  rgb :: "int \<times> int \<times> int"
  hex :: string
  godot :: "rat \<times> rat \<times> rat"

record gradient_sample =
  position :: rat
  gs_rgb :: "int \<times> int \<times> int"
  gs_hex :: string
  gs_godot :: "rat \<times> rat \<times> rat"

text \<open>
  The statement \<open>r, g, b = pixel[:3] if len(pixel) >= 3 else (pixel, pixel, pixel)\<close>.
  \<open>len\<close> raises \<open>TypeError\<close> on an \<open>int\<close> or a \<open>float\<close>. On a tuple of fewer than three
  channels each of \<open>r\<close>, \<open>g\<close>, \<open>b\<close> is the whole tuple.
\<close>

datatype channels = Channels int int int | Replicated pixel

definition unpack_rgb :: "pixel \<Rightarrow> pyexn + channels" where
  "unpack_rgb pixel =
     (case pixel of
        PInt v \<Rightarrow> Inl TypeError
      | PFloat v \<Rightarrow> Inl TypeError
      | PTuple cs \<Rightarrow>
          if length cs \<ge> 3 then Inr (Channels (cs ! 0) (cs ! 1) (cs ! 2))
          else Inr (Replicated pixel))"

text \<open>
  The three entries \<open>'rgb'\<close>, \<open>'hex'\<close>, \<open>'godot'\<close> of a sample. \<open>rgb_to_hex\<close> raises
  \<open>TypeError\<close> when the format specification \<open>02x\<close> is applied to a tuple.
\<close>

definition color_of :: "channels \<Rightarrow> pyexn + color" where
  "color_of ch =
     (case ch of
        Channels r g b \<Rightarrow>
          Inr \<lparr>rgb = (r, g, b), hex = rgb_to_hex r g b, godot = rgb_to_godot r g b\<rparr>
      | Replicated p \<Rightarrow> Inl TypeError)"

subsection \<open>\<open>analyze_vertical_gradient\<close>\<close>

text \<open>The two assignments to \<open>y\<close>, which stand outside the \<open>try\<close>.\<close>

definition gradient_y :: "int \<Rightarrow> int \<Rightarrow> int \<Rightarrow> pyexn + int" where
  "gradient_y height num_samples i =
     (if num_samples > 1 then
        (case int_truediv (height * i) (num_samples - 1) of
           Inl e \<Rightarrow> Inl e
         | Inr q \<Rightarrow> Inr (min (py_int q) (height - 1)))
      else Inr (min (height div 2) (height - 1)))"

text \<open>The body of the \<open>try\<close>: the sample, or the exception that the handler swallows.\<close>

definition gradient_try :: "image \<Rightarrow> int \<Rightarrow> int \<Rightarrow> int \<Rightarrow> int \<Rightarrow> pyexn + gradient_sample" where
  "gradient_try img num_samples x y i =
     (case getpixel img (x, y) of
        Inl e \<Rightarrow> Inl e
      | Inr pixel \<Rightarrow>
     (case unpack_rgb pixel of
        Inl e \<Rightarrow> Inl e
      | Inr ch \<Rightarrow>
     (case int_truediv i (num_samples - 1) of
        Inl e \<Rightarrow> Inl e
      | Inr q \<Rightarrow>
     (case color_of ch of
        Inl e \<Rightarrow> Inl e
      | Inr c \<Rightarrow>
          Inr \<lparr>position = py_round q 2, gs_rgb = rgb c, gs_hex = hex c,
               gs_godot = godot c\<rparr>))))"

fun gradient_loop ::
  "image \<Rightarrow> int \<Rightarrow> int list \<Rightarrow> gradient_sample list \<Rightarrow> pyexn + gradient_sample list" where
  "gradient_loop img num_samples [] colors = Inr colors"
| "gradient_loop img num_samples (i # is) colors =
     (case gradient_y (snd (img_size img)) num_samples i of
        Inl e \<Rightarrow> Inl e
      | Inr y \<Rightarrow>
          (case gradient_try img num_samples (fst (img_size img) div 2) y i of
             Inl e \<Rightarrow> gradient_loop img num_samples is colors
           | Inr c \<Rightarrow> gradient_loop img num_samples is (colors @ [c])))"

definition analyze_vertical_gradient :: "image \<Rightarrow> int \<Rightarrow> pyexn + gradient_sample list" where
  "analyze_vertical_gradient img num_samples =
     gradient_loop img num_samples [0 .. num_samples - 1] []"

subsection \<open>\<open>analyze_sky_zones\<close>\<close>

definition zones :: "(string \<times> rat) list" where
  "zones =
     [(''zenith'', float_lit (5 / 100)), (''upper_sky'', float_lit (25 / 100)),
      (''mid_sky'', float_lit (50 / 100)), (''lower_sky'', float_lit (75 / 100)),
      (''horizon'', float_lit (90 / 100)), (''water_line'', float_lit (95 / 100))]"

definition zone_y :: "int \<Rightarrow> rat \<Rightarrow> int" where
  "zone_y height y_percent =
     min (py_int (float_mul (float_of_int height) y_percent)) (height - 1)"

definition zone_try :: "image \<Rightarrow> int \<Rightarrow> int \<Rightarrow> pyexn + color" where
  "zone_try img x y =
     (case getpixel img (x, y) of
        Inl e \<Rightarrow> Inl e
      | Inr pixel \<Rightarrow>
          (case unpack_rgb pixel of
             Inl e \<Rightarrow> Inl e
           | Inr ch \<Rightarrow> color_of ch))"

text \<open>
  The dictionary \<open>zone_colors\<close> is an association list in insertion order; an
  assignment to a key appends it, or replaces the value of a key already present.
\<close>

fun zone_loop :: "image \<Rightarrow> (string \<times> rat) list \<Rightarrow> (string \<times> color) list \<Rightarrow> (string \<times> color) list" where
  "zone_loop img [] zone_colors = zone_colors"
| "zone_loop img ((zone_name, y_percent) # zs) zone_colors =
     (case zone_try img (fst (img_size img) div 2) (zone_y (snd (img_size img)) y_percent) of
        Inl e \<Rightarrow> zone_loop img zs zone_colors
      | Inr c \<Rightarrow> zone_loop img zs (AList.update zone_name c zone_colors))"

definition analyze_sky_zones :: "image \<Rightarrow> (string \<times> color) list" where
  "analyze_sky_zones img = zone_loop img zones []"

subsection \<open>\<open>analyze_brightness\<close>\<close>

record brightness_info =
  average :: rat
  normalized :: rat
  is_dark :: bool
  is_bright :: bool

definition luma :: "int \<Rightarrow> int \<Rightarrow> int \<Rightarrow> rat" where
  "luma r g b =
     float_add
       (float_add (float_mul (float_lit (299 / 1000)) (float_of_int r))
                  (float_mul (float_lit (587 / 1000)) (float_of_int g)))
       (float_mul (float_lit (114 / 1000)) (float_of_int b))"

text \<open>
  The loop over \<open>pixels\<close>, with the running \<open>total\<close> (here \<open>tot\<close>). The test \<open>len(pixel) >= 3\<close> is not
  inside a \<open>try\<close>, so its \<open>TypeError\<close> on an \<open>int\<close> or \<open>float\<close> pixel ends the function.
\<close>

fun brightness_loop :: "pixel list \<Rightarrow> rat \<Rightarrow> pyexn + rat" where
  "brightness_loop [] tot = Inr tot"
| "brightness_loop (PInt v # ps) tot = Inl TypeError"
| "brightness_loop (PFloat v # ps) tot = Inl TypeError"
| "brightness_loop (PTuple cs # ps) tot =
     (if length cs \<ge> 3
      then brightness_loop ps (float_add tot (luma (cs ! 0) (cs ! 1) (cs ! 2)))
      else brightness_loop ps tot)"

definition brightness_of :: "rat \<Rightarrow> int \<Rightarrow> pyexn + brightness_info" where
  "brightness_of tot len =
     (case float_div tot (float_of_int len) of
        Inl e \<Rightarrow> Inl e
      | Inr avg \<Rightarrow>
          (case float_div avg (float_of_int 255) of
             Inl e \<Rightarrow> Inl e
           | Inr n \<Rightarrow>
               Inr \<lparr>average = py_round avg 2, normalized = py_round n 3,
                    is_dark = (avg < 85), is_bright = (avg > 170)\<rparr>))"

definition analyze_brightness :: "image \<Rightarrow> pyexn + brightness_info" where
  "analyze_brightness img =
     (case resize_getdata img (100, 100) of
        Inl e \<Rightarrow> Inl e
      | Inr pixels \<Rightarrow>
          (case brightness_loop pixels 0 of
             Inl e \<Rightarrow> Inl e
           | Inr tot \<Rightarrow> brightness_of tot (int (length pixels))))"

subsection \<open>\<open>analyze_image\<close> and the loop of \<open>main\<close>\<close>

record analysis =
  filename :: string
  orientation :: string
  hour :: int
  time :: string
  dimensions :: "int \<times> int"
  vertical_gradient :: "gradient_sample list"
  sky_zones :: "(string \<times> color) list"
  brightness :: brightness_info

text \<open>The lines the program prints, one constructor for each \<open>print\<close> of the two functions.\<close>

datatype message =
    Skipping string
  | Analyzing string string int
  | ErrorAnalyzing string pyexn

text \<open>\<open>os.path.basename\<close>: what follows the last slash.\<close>

definition basename :: "string \<Rightarrow> string" where
  "basename p = drop (nat (rfind CHR ''/'' p + 1)) p"

text \<open>
  \<open>Image.open\<close> is the parameter \<open>image_open\<close>: it returns the image or raises. The result
  is what was printed, and the returned value (\<open>None\<close> for a skipped file) or the
  exception that leaves the function.
\<close>

definition analyze_image ::
  "(string \<Rightarrow> pyexn + image) \<Rightarrow> string \<Rightarrow> message list \<times> (pyexn + analysis option)" where
  "analyze_image image_open image_path =
     (case image_open image_path of
        Inl e \<Rightarrow> ([], Inl e)
      | Inr img \<Rightarrow>
          (let fname = basename image_path
           in case parse_orientation_hour_from_filename fname of
                None \<Rightarrow> ([Skipping fname], Inr None)
              | Some (orient, hr) \<Rightarrow>
                  (case analyze_vertical_gradient img 10 of
                     Inl e \<Rightarrow> ([Analyzing fname orient hr], Inl e)
                   | Inr gradient \<Rightarrow>
                       (case analyze_brightness img of
                          Inl e \<Rightarrow> ([Analyzing fname orient hr], Inl e)
                        | Inr b \<Rightarrow>
                            ([Analyzing fname orient hr],
                             Inr (Some
                               \<lparr>filename = fname, orientation = orient, hour = hr,
                                time = format_02d hr @ '':00'',
                                dimensions = img_size img,
                                vertical_gradient = gradient,
                                sky_zones = analyze_sky_zones img,
                                brightness = b\<rparr>))))))"

text \<open>
  The loop of \<open>main\<close> over \<open>image_files\<close>: the list \<open>all_analyses\<close> and the printed lines.
\<close>

fun main_loop ::
  "(string \<Rightarrow> pyexn + image) \<Rightarrow> string list \<Rightarrow> analysis list \<Rightarrow> message list
     \<Rightarrow> analysis list \<times> message list" where
  "main_loop image_open [] all_analyses out = (all_analyses, out)"
| "main_loop image_open (img_path # rest) all_analyses out =
     (case analyze_image image_open img_path of
        (printed, Inl e) \<Rightarrow>
          main_loop image_open rest all_analyses (out @ printed @ [ErrorAnalyzing img_path e])
      | (printed, Inr None) \<Rightarrow> main_loop image_open rest all_analyses (out @ printed)
      | (printed, Inr (Some a)) \<Rightarrow>
          main_loop image_open rest (all_analyses @ [a]) (out @ printed))"

subsection \<open>\<open>build_godot_entry\<close> and \<open>generate_report\<close>\<close>

text \<open>An empty dictionary \<open>{}\<close> in place of a colour is \<open>None\<close>.\<close>

record godot_entry =
  ge_orientation :: string
  ge_hour :: int
  ge_time :: string
  ge_colors :: "(string \<times> (rat \<times> rat \<times> rat) option) list"
  ge_brightness :: rat

definition zone_godot :: "(string \<times> color) list \<Rightarrow> string \<Rightarrow> (rat \<times> rat \<times> rat) option" where
  "zone_godot zs k = map_option godot (map_of zs k)"

definition build_godot_entry :: "analysis \<Rightarrow> godot_entry" where
  "build_godot_entry a =
     \<lparr>ge_orientation = orientation a, ge_hour = hour a, ge_time = time a,
      ge_colors =
        [(''zenith'', zone_godot (sky_zones a) ''zenith''),
         (''upper'', zone_godot (sky_zones a) ''upper_sky''),
         (''middle'', zone_godot (sky_zones a) ''mid_sky''),
         (''lower'', zone_godot (sky_zones a) ''lower_sky''),
         (''horizon'', zone_godot (sky_zones a) ''horizon''),
         (''water'', zone_godot (sky_zones a) ''water_line'')],
      ge_brightness = normalized (brightness a)\<rparr>"

record summary =
  total_images :: nat
  orientations :: "string list"
  purpose :: string

record report =
  report_summary :: summary
  analyses :: "analysis list"

text \<open>
  \<open>list({a['orientation'] for a in all_analyses})\<close> lists a set of strings. Python leaves
  the iteration order of a set unspecified; for strings it follows their hash values,
  which the interpreter randomises for each process. The order one run uses is the
  parameter \<open>set_list\<close> of \<open>generate_report\<close>, applied to the elements in the order the
  comprehension inserts them. Whatever the order, the list has each element of the set
  once (\<open>set_listing\<close>).
\<close>

definition set_listing :: "(string list \<Rightarrow> string list) \<Rightarrow> bool" where
  "set_listing set_list = (\<forall>xs. distinct (set_list xs) \<and> set (set_list xs) = set xs)"

text \<open>
  \<open>sorted\<close> with a key is a stable sort, as \<open>sort_key\<close> is. The keys are pairs of a string
  and an \<open>int\<close>, compared lexicographically; strings compare character by character.
  The result is what the two \<open>json.dump\<close> calls write: the report and the export list.
\<close>

definition generate_report ::
  "(string list \<Rightarrow> string list) \<Rightarrow> analysis list \<Rightarrow> report \<times> godot_entry list" where
  "generate_report set_list all_analyses =
     (let sorted_analyses = sort_key (\<lambda>x. (orientation x, hour x)) all_analyses;
          report =
            \<lparr>report_summary =
               \<lparr>total_images = length all_analyses,
                orientations = set_list (map orientation all_analyses),
                purpose = ''Skybox color extraction by orientation and hour''\<rparr>,
             analyses = sorted_analyses\<rparr>;
          godot_data = map build_godot_entry sorted_analyses
      in (report, godot_data))"

subsection \<open>Notions used in the statements\<close>

text \<open>A pixel that is a tuple, and a pixel that is a tuple of at least three channels.\<close>

definition is_tuple :: "pixel \<Rightarrow> bool" where
  "is_tuple p = (case p of PTuple cs \<Rightarrow> True | PInt v \<Rightarrow> False | PFloat v \<Rightarrow> False)"

definition has_rgb :: "pixel \<Rightarrow> bool" where
  "has_rgb p = (case p of PTuple cs \<Rightarrow> 3 \<le> length cs | PInt v \<Rightarrow> False | PFloat v \<Rightarrow> False)"

text \<open>Every pixel the image delivers has at least three channels.\<close>

definition wide_pixels :: "image \<Rightarrow> bool" where
  "wide_pixels img = (\<forall>xy p. getpixel img xy = Inr p \<longrightarrow> has_rgb p)"

text \<open>The image has positive width and height and every pixel inside is \<open>(r, g, b)\<close>.\<close>

definition solid_rgb :: "image \<Rightarrow> int \<Rightarrow> int \<Rightarrow> int \<Rightarrow> bool" where
  "solid_rgb img r g b =
     (0 < fst (img_size img) \<and> 0 < snd (img_size img) \<and>
      (\<forall>x y. 0 \<le> x \<and> x < fst (img_size img) \<and> 0 \<le> y \<and> y < snd (img_size img)
         \<longrightarrow> getpixel img (x, y) = Inr (PTuple [r, g, b])))"

text \<open>The colour sample of the first three channels of a pixel.\<close>

definition pixel_color :: "pixel \<Rightarrow> color" where
  "pixel_color p =
     (case p of
        PTuple cs \<Rightarrow>
          \<lparr>rgb = (cs ! 0, cs ! 1, cs ! 2), hex = rgb_to_hex (cs ! 0) (cs ! 1) (cs ! 2),
           godot = rgb_to_godot (cs ! 0) (cs ! 1) (cs ! 2)\<rparr>
      | PInt v \<Rightarrow> \<lparr>rgb = (v, v, v), hex = rgb_to_hex v v v, godot = rgb_to_godot v v v\<rparr>
      | PFloat v \<Rightarrow> \<lparr>rgb = (0, 0, 0), hex = [], godot = (v, v, v)\<rparr>)"

text \<open>
  The point of sample \<open>i\<close> of \<open>num_samples > 1\<close> samples, the sample recorded there for a
  pixel, and the point of a zone.
\<close>

definition gradient_point :: "image \<Rightarrow> int \<Rightarrow> int \<Rightarrow> int \<times> int" where
  "gradient_point img num_samples i =
     (fst (img_size img) div 2,
      min (py_int (fl (of_int (snd (img_size img) * i) / of_int (num_samples - 1))))
          (snd (img_size img) - 1))"

definition gradient_sample_of :: "int \<Rightarrow> int \<Rightarrow> pixel \<Rightarrow> gradient_sample" where
  "gradient_sample_of num_samples i p =
     \<lparr>position = py_round (fl (of_int i / of_int (num_samples - 1))) 2,
      gs_rgb = rgb (pixel_color p), gs_hex = hex (pixel_color p),
      gs_godot = godot (pixel_color p)\<rparr>"

definition zone_point :: "image \<Rightarrow> rat \<Rightarrow> int \<times> int" where
  "zone_point img y_percent =
     (fst (img_size img) div 2, zone_y (snd (img_size img)) y_percent)"

subsection \<open>Example inputs\<close>

text \<open>
  An image of one colour: every pixel inside is \<open>p\<close>, a read outside raises, and so is
  every pixel of its downsample.
\<close>

definition solid_image :: "int \<Rightarrow> int \<Rightarrow> pixel \<Rightarrow> image" where
  "solid_image w h p =
     \<lparr>img_size = (w, h),
      getpixel = (\<lambda>(x, y). if 0 \<le> x \<and> x < w \<and> 0 \<le> y \<and> y < h then Inr p else Inl IndexError),
      resize_getdata = (\<lambda>(a, b). Inr (replicate (nat (a * b)) p))\<rparr>"

text \<open>An image one pixel wide and four high whose reads in the top row raise.\<close>

definition broken_top_image :: "pixel \<Rightarrow> image" where
  "broken_top_image p =
     \<lparr>img_size = (1, 4),
      getpixel = (\<lambda>(x, y). if y = 0 then Inl OSError else Inr p),
      resize_getdata = (\<lambda>(a, b). Inr (replicate (nat (a * b)) p))\<rparr>"

text \<open>
  An image whose downsample is half white pixels and half two-channel pixels of full
  luminance.
\<close>

definition half_white_pixels :: "pixel list" where
  "half_white_pixels =
     replicate 5000 (PTuple [255, 255, 255]) @ replicate 5000 (PTuple [255, 255])"

definition half_white_image :: image where
  "half_white_image =
     \<lparr>img_size = (100, 100),
      getpixel = (\<lambda>(x, y). if y < 50 then Inr (PTuple [255, 255, 255]) else Inr (PTuple [255, 255])),
      resize_getdata = (\<lambda>(a, b). Inr half_white_pixels)\<rparr>"

text \<open>An analysis with the given file name, orientation and hour, and a batch of three.\<close>

definition example_analysis :: "string \<Rightarrow> string \<Rightarrow> int \<Rightarrow> analysis" where
  "example_analysis f orient hr =
     \<lparr>filename = f, orientation = orient, hour = hr, time = format_02d hr @ '':00'',
      dimensions = (1, 1), vertical_gradient = [], sky_zones = [],
      brightness = \<lparr>average = 0, normalized = 0, is_dark = True, is_bright = False\<rparr>\<rparr>"

definition example_batch :: "analysis list" where
  "example_batch =
     [example_analysis ''N06.png'' ''N'' 6, example_analysis ''E12.png'' ''E'' 12,
      example_analysis ''E01.png'' ''E'' 1]"

text \<open>A directory in which only \<open>shots/notes.png\<close> opens as an image.\<close>

definition example_open :: "string \<Rightarrow> pyexn + image" where
  "example_open p =
     (if p = ''shots/notes.png'' then Inr (solid_image 2 2 (PTuple [1, 2, 3])) else Inl OSError)"

section \<open>Properties\<close>

subsection \<open>Rounding\<close>

lemma round_half_even_of_int: "round_half_even (of_int z) = z"
  by (simp add: round_half_even_def)

lemma round_half_even_nonneg: "0 \<le> q \<Longrightarrow> 0 \<le> round_half_even q"
  by (simp add: round_half_even_def Let_def)

lemma fl_nonneg:
  assumes "0 \<le> x"
  shows "0 \<le> fl x"
proof -
  have "0 \<le> of_int (round_half_even (x / power_int 2 k)) * (power_int 2 k :: rat)" for k
  proof -
    have u: "(0::rat) < power_int 2 k" by (simp add: zero_less_power_int)
    then have "0 \<le> x / power_int 2 k" using assms by simp
    then have "0 \<le> round_half_even (x / power_int 2 k)" by (rule round_half_even_nonneg)
    then show ?thesis using u by simp
  qed
  then show ?thesis by (simp add: fl_def Let_def)
qed

text \<open>An integer below \<open>2\<^sup>5\<^sup>3\<close> is a float: rounding leaves it as it is.\<close>

lemma fl_of_int_exact:
  assumes "0 \<le> n" and "n < 2 ^ 53"
  shows "fl (of_int n) = of_int n"
proof (cases "n = 0")
  case True
  then show ?thesis by (simp add: fl_def)
next
  case False
  with assms have pos: "1 \<le> n" by simp
  define w where "w = bitlen n"
  have w53: "w \<le> 53" unfolding w_def using assms by (simp add: bitlen_le_iff_power)
  have w0: "0 < w" unfolding w_def using pos bitlen_ge_iff_power [of 1 n] by simp
  define m where "m = nat (53 - w)"
  have ab: "\<bar>rat_of_int n\<bar> = rat_of_int n" using pos by simp
  have il: "ilog2 (rat_of_int n) - 52 = - int m"
    using pos w53 w0 by (simp add: ilog2_def w_def m_def)
  have u: "power_int (2::rat) (- int m) = 1 / 2 ^ m"
    by (simp add: power_int_def inverse_eq_divide power_one_over)
  have q: "rat_of_int n / (1 / 2 ^ m) = of_int (n * 2 ^ m)" by simp
  have "fl (of_int n) = of_int (round_half_even (rat_of_int n / (1 / 2 ^ m))) * (1 / 2 ^ m)"
    using pos unfolding fl_def Let_def ab il u by simp
  also have "\<dots> = of_int n"
    unfolding q round_half_even_of_int by simp
  finally show ?thesis .
qed

subsection \<open>Brightness\<close>

lemma luma_white: "luma 255 255 255 = 255"
  by code_simp




text \<open>Adding white pixels to a running total of \<open>255 k\<close> stays exact.\<close>

lemma brightness_loop_white:
  "int k + int n \<le> 10000 \<Longrightarrow>
   brightness_loop (replicate n (PTuple [255, 255, 255])) (of_int (255 * int k))
     = Inr (of_int (255 * (int k + int n)))"
proof (induction n arbitrary: k)
  case 0
  then show ?case by simp
next
  case (Suc n)
  have "float_add (rat_of_int (255 * int k)) 255 = fl (of_int (255 * int (Suc k)))"
    by (simp add: float_add_def algebra_simps)
  also have "\<dots> = of_int (255 * int (Suc k))"
    using Suc.prems by (intro fl_of_int_exact) simp_all
  finally have step: "float_add (rat_of_int (255 * int k)) 255 = of_int (255 * int (Suc k))" .
  have "int (Suc k) + int n \<le> 10000" using Suc.prems by simp
  from Suc.IH [OF this] show ?case
    by (simp add: luma_white step del: of_int_mult of_int_add)
qed



lemma brightness_of_half:
  "brightness_of 1275000 10000 =
     Inr \<lparr>average = 255 / 2, normalized = 1 / 2, is_dark = False, is_bright = False\<rparr>"
  by code_simp

lemma brightness_of_thresholds:
  assumes "brightness_of tot n = Inr b"
  shows "\<exists>avg. float_div tot (float_of_int n) = Inr avg \<and> average b = py_round avg 2
           \<and> is_dark b = (avg < 85) \<and> is_bright b = (170 < avg)"
  using assms by (auto simp: brightness_of_def split: sum.splits)



lemma brightness_loop_filter:
  "list_all is_tuple ps \<Longrightarrow> brightness_loop ps t = brightness_loop (filter has_rgb ps) t"
proof (induction ps arbitrary: t)
  case Nil
  then show ?case by simp
next
  case (Cons p ps)
  then show ?case by (cases p) (simp_all add: is_tuple_def has_rgb_def)
qed

lemma brightness_loop_tuples:
  "list_all is_tuple ps \<Longrightarrow> \<exists>tot. brightness_loop ps t = Inr tot"
proof (induction ps arbitrary: t)
  case Nil
  then show ?case by simp
next
  case (Cons p ps)
  then show ?case by (cases p) (simp_all add: is_tuple_def)
qed

lemma float_of_int_10000: "float_of_int 10000 = 10000"
  by code_simp

lemma float_of_int_255: "float_of_int 255 = 255"
  by code_simp

lemma brightness_of_10000: "\<exists>b. brightness_of tot 10000 = Inr b"
  by (simp add: brightness_of_def float_div_def float_of_int_10000 float_of_int_255)

text \<open>
  C9. The downsample has 10000 pixels. When all of them are tuples, the analysis returns
  a result: the division by the pixel count does not fail. The total is the one of the
  pixels of at least three channels alone, so a shorter tuple adds nothing to it, and
  the divisor is the count of all 10000 pixels, the shorter tuples included.
\<close>

theorem brightness_divides_by_all_pixels:
  assumes "resize_getdata img (100, 100) = Inr pixels"
    and "length pixels = 10000"
    and "list_all is_tuple pixels"
  shows "\<exists>tot avg b.
           brightness_loop (filter has_rgb pixels) 0 = Inr tot
           \<and> float_div tot (float_of_int (int (length pixels))) = Inr avg
           \<and> brightness_of tot 10000 = Inr b
           \<and> average b = py_round avg 2
           \<and> analyze_brightness img = Inr b"
proof -
  from assms(3) obtain tot where tot: "brightness_loop pixels 0 = Inr tot"
    using brightness_loop_tuples by blast
  then have f: "brightness_loop (filter has_rgb pixels) 0 = Inr tot"
    using brightness_loop_filter [OF assms(3)] by simp
  obtain b where b: "brightness_of tot 10000 = Inr b"
    using brightness_of_10000 by blast
  from brightness_of_thresholds [OF b] obtain avg where
    avg: "float_div tot (float_of_int 10000) = Inr avg" "average b = py_round avg 2"
    by blast
  have "analyze_brightness img = Inr b"
    using assms(1,2) tot b by (simp add: analyze_brightness_def)
  with f b avg assms(2) show ?thesis by simp
qed

theorem brightness_divides_by_all_pixels_witness:
  "length half_white_pixels = 10000
   \<and> filter has_rgb half_white_pixels = replicate 5000 (PTuple [255, 255, 255])
   \<and> analyze_brightness half_white_image =
       Inr \<lparr>average = 255 / 2, normalized = 1 / 2, is_dark = False, is_bright = False\<rparr>"
proof -
  have len: "length half_white_pixels = 10000"
    by (simp add: half_white_pixels_def)
  have tup: "list_all is_tuple half_white_pixels"
    by (auto simp: half_white_pixels_def list_all_iff is_tuple_def)
  have fil: "filter has_rgb half_white_pixels = replicate 5000 (PTuple [255, 255, 255])"
    by (simp add: half_white_pixels_def has_rgb_def)
  have rs: "resize_getdata half_white_image (100, 100) = Inr half_white_pixels"
    by (simp add: half_white_image_def)
  have "brightness_loop (replicate 5000 (PTuple [255, 255, 255])) (of_int (255 * int 0))
          = Inr (of_int (255 * (int 0 + int 5000)))"
    by (rule brightness_loop_white) simp
  then have lp: "brightness_loop (replicate 5000 (PTuple [255, 255, 255])) 0 = Inr 1275000"
    by simp
  from brightness_divides_by_all_pixels [OF rs len tup] obtain tot avg b where
    "brightness_loop (filter has_rgb half_white_pixels) 0 = Inr tot"
    "brightness_of tot 10000 = Inr b" "analyze_brightness half_white_image = Inr b"
    by blast
  then have "analyze_brightness half_white_image =
       Inr \<lparr>average = 255 / 2, normalized = 1 / 2, is_dark = False, is_bright = False\<rparr>"
    using fil lp brightness_of_half by simp
  with len fil show ?thesis by simp
qed

subsection \<open>Opening and parsing\<close>

text \<open>
  C10. \<open>analyze_image\<close> opens the file first. When the file does not open, the exception
  leaves the function whatever the file name is, nothing is printed by it, and the loop
  of \<open>main\<close> prints the error line. The skip line and the result \<open>None\<close> for a name that
  does not parse come only when the file has opened.
\<close>

theorem open_before_parse:
  "(image_open p = Inl e \<longrightarrow>
      analyze_image image_open p = ([], Inl e)
      \<and> main_loop image_open [p] acc out = (acc, out @ [ErrorAnalyzing p e]))
   \<and> (image_open p = Inr img \<and> parse_orientation_hour_from_filename (basename p) = None \<longrightarrow>
      analyze_image image_open p = ([Skipping (basename p)], Inr None)
      \<and> main_loop image_open [p] acc out = (acc, out @ [Skipping (basename p)]))"
  by (simp add: analyze_image_def)

lemma basename_notes: "basename ''shots/notes.png'' = ''notes.png''"
  by code_simp

lemma parse_notes: "parse_orientation_hour_from_filename ''notes.png'' = None"
  by code_simp

lemma parse_todo: "parse_orientation_hour_from_filename (basename ''shots/todo.png'') = None"
  by code_simp

theorem open_before_parse_witness:
  "parse_orientation_hour_from_filename (basename ''shots/notes.png'') = None
   \<and> parse_orientation_hour_from_filename (basename ''shots/todo.png'') = None
   \<and> analyze_image example_open ''shots/notes.png'' = ([Skipping ''notes.png''], Inr None)
   \<and> analyze_image example_open ''shots/todo.png'' = ([], Inl OSError)
   \<and> main_loop example_open [''shots/todo.png''] [] [] =
       ([], [ErrorAnalyzing ''shots/todo.png'' OSError])
   \<and> main_loop example_open [''shots/notes.png''] [] [] = ([], [Skipping ''notes.png''])"
proof -
  have o1: "example_open ''shots/notes.png'' = Inr (solid_image 2 2 (PTuple [1, 2, 3]))"
    by (simp add: example_open_def)
  have o2: "example_open ''shots/todo.png'' = Inl OSError"
    by (simp add: example_open_def)
  have n: "parse_orientation_hour_from_filename (basename ''shots/notes.png'') = None"
    by (simp add: basename_notes parse_notes)
  show ?thesis
    using open_before_parse [where image_open = example_open and p = "''shots/todo.png''"
        and e = OSError and acc = "[]" and out = "[]"]
      open_before_parse [where image_open = example_open and p = "''shots/notes.png''"
        and img = "solid_image 2 2 (PTuple [1, 2, 3])" and acc = "[]" and out = "[]"]
      o1 o2 n parse_todo basename_notes
    by simp
qed

subsection \<open>The report\<close>

lemma report_analyses:
  "analyses (fst (generate_report set_list all_analyses)) =
     sort_key (\<lambda>x. (orientation x, hour x)) all_analyses"
  by (simp add: generate_report_def Let_def)

lemma report_export:
  "snd (generate_report set_list all_analyses) =
     map build_godot_entry (sort_key (\<lambda>x. (orientation x, hour x)) all_analyses)"
  by (simp add: generate_report_def Let_def)

lemma report_orientations:
  "orientations (report_summary (fst (generate_report set_list all_analyses))) =
     set_list (map orientation all_analyses)"
  by (simp add: generate_report_def Let_def)

lemma example_batch_sorted:
  "sort_key (\<lambda>x. (orientation x, hour x)) example_batch =
     [example_analysis ''E01.png'' ''E'' 1, example_analysis ''E12.png'' ''E'' 12,
      example_analysis ''N06.png'' ''N'' 6]"
  by (simp add: example_batch_def example_analysis_def less_eq_prod_def less_prod_def
      less_char_def less_eq_char_def)

text \<open>
  C6. Whatever the order of the analyses given, the sequence \<open>analyses\<close> of the report
  has the same analyses, in ascending order of the pair of orientation and hour:
  orientations as strings, hours as numbers. The batch N06, E12, E01 comes out as E01,
  E12, N06.
\<close>

theorem report_analyses_sorted:
  "sorted (map (\<lambda>x. (orientation x, hour x))
            (analyses (fst (generate_report set_list all_analyses))))
   \<and> mset (analyses (fst (generate_report set_list all_analyses))) = mset all_analyses
   \<and> analyses (fst (generate_report set_list example_batch)) =
       [example_analysis ''E01.png'' ''E'' 1, example_analysis ''E12.png'' ''E'' 12,
        example_analysis ''N06.png'' ''N'' 6]"
  by (simp add: report_analyses example_batch_sorted del: sort_key_simps)

lemma set_listing_remdups: "set_listing remdups"
  by (simp add: set_listing_def)

lemma set_listing_rev_remdups: "set_listing (rev \<circ> remdups)"
  by (simp add: set_listing_def)

lemma example_batch_orientations:
  "map orientation example_batch = [''N'', ''E'', ''E'']"
  by (simp add: example_batch_def example_analysis_def)

text \<open>
  C1, as stated, fails. Two runs on the same batch can list the set of orientations in
  two orders, here N, E in one run and E, N in the other, and then the two reports differ.
\<close>

theorem report_depends_on_set_order:
  "set_listing remdups \<and> set_listing (rev \<circ> remdups)
   \<and> orientations (report_summary (fst (generate_report remdups example_batch)))
       = [''N'', ''E'']
   \<and> orientations (report_summary (fst (generate_report (rev \<circ> remdups) example_batch)))
       = [''E'', ''N'']
   \<and> fst (generate_report remdups example_batch)
       \<noteq> fst (generate_report (rev \<circ> remdups) example_batch)"
proof -
  have a: "orientations (report_summary (fst (generate_report remdups example_batch)))
             = [''N'', ''E'']"
    by (simp add: report_orientations example_batch_orientations)
  have b: "orientations
             (report_summary (fst (generate_report (rev \<circ> remdups) example_batch)))
             = [''E'', ''N'']"
    by (simp add: report_orientations example_batch_orientations)
  have "fst (generate_report remdups example_batch)
          \<noteq> fst (generate_report (rev \<circ> remdups) example_batch)"
  proof
    assume "fst (generate_report remdups example_batch)
              = fst (generate_report (rev \<circ> remdups) example_batch)"
    with a b have "[''N'', ''E''] = [''E'', ''N'']" by simp
    then show False by simp
  qed
  with a b show ?thesis
    by (simp add: set_listing_remdups set_listing_rev_remdups)
qed

text \<open>
  C1, amended. For one batch of analyses, two runs, each with its own order of listing
  a set, write the same sequence of analyses, the same export, the same image count
  and label, and lists of orientations that have the same elements, each once: the
  distinct orientations of the batch. Only the order of that one list can differ.
\<close>

theorem report_independent_of_set_order:
  assumes "set_listing f" and "set_listing g"
  shows "analyses (fst (generate_report f xs)) = analyses (fst (generate_report g xs))
    \<and> snd (generate_report f xs) = snd (generate_report g xs)
    \<and> total_images (report_summary (fst (generate_report f xs)))
        = total_images (report_summary (fst (generate_report g xs)))
    \<and> purpose (report_summary (fst (generate_report f xs)))
        = purpose (report_summary (fst (generate_report g xs)))
    \<and> mset (orientations (report_summary (fst (generate_report f xs))))
        = mset (orientations (report_summary (fst (generate_report g xs))))
    \<and> distinct (orientations (report_summary (fst (generate_report f xs))))
    \<and> set (orientations (report_summary (fst (generate_report f xs))))
        = orientation ` set xs"
proof -
  let ?os = "map orientation xs"
  from assms have d: "distinct (f ?os)" "distinct (g ?os)"
    and s: "set (f ?os) = set ?os" "set (g ?os) = set ?os"
    by (simp_all add: set_listing_def)
  then have "mset (f ?os) = mset (g ?os)"
    by (simp add: set_eq_iff_mset_eq_distinct [symmetric])
  with d s show ?thesis
    by (simp add: report_analyses report_export report_orientations)
      (simp add: generate_report_def Let_def)
qed

theorem report_independent_of_set_order_witness:
  "set_listing remdups \<and> set_listing (rev \<circ> remdups)
   \<and> analyses (fst (generate_report remdups example_batch))
       = analyses (fst (generate_report (rev \<circ> remdups) example_batch))
   \<and> snd (generate_report remdups example_batch)
       = snd (generate_report (rev \<circ> remdups) example_batch)
   \<and> mset (orientations (report_summary (fst (generate_report remdups example_batch))))
       = mset (orientations
           (report_summary (fst (generate_report (rev \<circ> remdups) example_batch))))
   \<and> set (orientations (report_summary (fst (generate_report remdups example_batch))))
       = {''N'', ''E''}"
proof -
  have "orientation ` set example_batch = {''N'', ''E''}"
    using example_batch_orientations by (metis list.set_map list.simps(15) insert_absorb2 empty_set)
  then show ?thesis
    using report_independent_of_set_order [OF set_listing_remdups set_listing_rev_remdups,
        of example_batch]
    by (simp add: set_listing_remdups set_listing_rev_remdups)
qed

subsection \<open>The samplers\<close>

lemma gradient_try_single: "\<exists>e. gradient_try img 1 x y i = Inl e"
  by (auto simp: gradient_try_def int_truediv_def split: sum.splits)

text \<open>
  C5, the case of one sample. With \<open>num_samples = 1\<close> the sampler returns no sample at
  all, for every image: the pixel at the vertical midpoint is read, and the position
  \<open>i / (num_samples - 1)\<close> then divides by zero inside the \<open>try\<close>.
\<close>

theorem gradient_single_sample_dropped:
  "analyze_vertical_gradient img 1 = Inr []"
proof -
  have up: "[0 .. (1::int) - 1] = [0]" by (simp add: upto.simps)
  obtain e where "gradient_try img 1 (fst (img_size img) div 2)
      (min (snd (img_size img) div 2) (snd (img_size img) - 1)) 0 = Inl e"
    using gradient_try_single by blast
  then show ?thesis
    by (simp add: analyze_vertical_gradient_def up gradient_y_def)
qed

text \<open>
  C4, the case of one sample. A solid image of colour (10, 20, 30), four by four: its
  centre pixel reads as that colour, and the analysis with \<open>num_samples = 1\<close> returns no
  sample.
\<close>

theorem solid_single_sample_dropped:
  "getpixel (solid_image 4 4 (PTuple [10, 20, 30])) (2, 2) = Inr (PTuple [10, 20, 30])
   \<and> analyze_vertical_gradient (solid_image 4 4 (PTuple [10, 20, 30])) 1 = Inr []"
  by code_simp

text \<open>
  A read that returns a pixel of fewer than three channels never yields a sample: \<open>len\<close> raises on a number, and the format of the hex
  string raises on the tuple that stands for each channel.
\<close>

lemma narrow_pixel_dropped:
  assumes "getpixel img (x, y) = Inr p" and "\<not> has_rgb p"
  shows "(\<exists>e. gradient_try img n x y i = Inl e) \<and> (\<exists>e. zone_try img x y = Inl e)"
  using assms
  by (cases p)
    (auto simp: gradient_try_def zone_try_def unpack_rgb_def color_of_def has_rgb_def
      split: sum.splits)

text \<open>
  C3, on a grayscale image. A four by four image whose pixels are the number 128, and
  one whose pixels are the pair (128, 255): both samplers return no sample.
\<close>

theorem grayscale_samples_dropped:
  "analyze_vertical_gradient (solid_image 4 4 (PInt 128)) 10 = Inr []
   \<and> analyze_sky_zones (solid_image 4 4 (PInt 128)) = []
   \<and> analyze_vertical_gradient (solid_image 4 4 (PTuple [128, 255])) 10 = Inr []
   \<and> analyze_sky_zones (solid_image 4 4 (PTuple [128, 255])) = []"
  by code_simp

subsection \<open>The parser\<close>

text \<open>
  C2 fails on a stem that ends in a newline. The file name \<open>E12\<close>, newline, \<open>.png\<close> has the
  four-character stem \<open>E12\<close>, newline, which is not a letter and two digits, and the
  parser returns orientation E and hour 12 for it.
\<close>

theorem parser_accepts_newline_stem:
  "path_stem [CHR ''E'', CHR ''1'', CHR ''2'', CHR 0x0A, CHR ''.'', CHR ''p'', CHR ''n'', CHR ''g'']
     = [CHR ''E'', CHR ''1'', CHR ''2'', CHR 0x0A]
   \<and> parse_orientation_hour_from_filename
       [CHR ''E'', CHR ''1'', CHR ''2'', CHR 0x0A, CHR ''.'', CHR ''p'', CHR ''n'', CHR ''g'']
     = Some (''E'', 12)"
  by code_simp

subsection \<open>What the samplers return\<close>

lemma gradient_y_wide:
  "1 < n \<Longrightarrow> gradient_y (snd (img_size img)) n i = Inr (snd (gradient_point img n i))"
  by (simp add: gradient_y_def int_truediv_def gradient_point_def)

lemma gradient_try_failed_read:
  "getpixel img (x, y) = Inl e \<Longrightarrow> gradient_try img n x y i = Inl e"
  by (simp add: gradient_try_def)

lemma gradient_try_wide:
  assumes "n \<noteq> 1" and "getpixel img (x, y) = Inr p" and "has_rgb p"
  shows "gradient_try img n x y i = Inr (gradient_sample_of n i p)"
  using assms
  by (cases p)
    (simp_all add: gradient_try_def unpack_rgb_def color_of_def has_rgb_def int_truediv_def
      gradient_sample_of_def pixel_color_def)

text \<open>
  The loop appends, in order, the sample of every index whose read succeeds, when the
  pixels read have three channels or more.
\<close>

lemma gradient_loop_samples:
  assumes "1 < n"
    and "\<And>i p. i \<in> set js \<Longrightarrow> getpixel img (gradient_point img n i) = Inr p \<Longrightarrow> has_rgb p"
  shows "gradient_loop img n js acc =
     Inr (acc @ concat (map (\<lambda>i. case getpixel img (gradient_point img n i) of
                                    Inl e \<Rightarrow> [] | Inr p \<Rightarrow> [gradient_sample_of n i p]) js))"
  using assms(2)
proof (induction js arbitrary: acc)
  case Nil
  then show ?case by simp
next
  case (Cons j js)
  have pt: "(fst (img_size img) div 2, snd (gradient_point img n j)) = gradient_point img n j"
    by (simp add: gradient_point_def)
  have ih: "gradient_loop img n js acc' =
     Inr (acc' @ concat (map (\<lambda>i. case getpixel img (gradient_point img n i) of
                                    Inl e \<Rightarrow> [] | Inr p \<Rightarrow> [gradient_sample_of n i p]) js))"
    for acc'
  proof (rule Cons.IH)
    fix i p
    assume "i \<in> set js" and "getpixel img (gradient_point img n i) = Inr p"
    then show "has_rgb p" using Cons.prems [of i p] by simp
  qed
  show ?case
  proof (cases "getpixel img (gradient_point img n j)")
    case (Inl e)
    then have "gradient_try img n (fst (img_size img) div 2) (snd (gradient_point img n j)) j
                 = Inl e"
      using gradient_try_failed_read pt by metis
    then show ?thesis
      using assms(1) Inl by (simp add: gradient_y_wide ih)
  next
    case (Inr p)
    then have "has_rgb p" using Cons.prems [of j p] by simp
    then have "gradient_try img n (fst (img_size img) div 2) (snd (gradient_point img n j)) j
                 = Inr (gradient_sample_of n j p)"
      using gradient_try_wide [of n img _ _ p j] assms(1) Inr pt by (metis less_irrefl)
    then show ?thesis
      using assms(1) Inr by (simp add: gradient_y_wide ih)
  qed
qed

text \<open>The sampler returns a list for every image and every number of samples.\<close>

lemma gradient_y_total: "\<exists>y. gradient_y h n i = Inr y"
  by (simp add: gradient_y_def int_truediv_def)

lemma gradient_loop_total: "\<exists>cs. gradient_loop img n js acc = Inr cs"
proof (induction js arbitrary: acc)
  case Nil
  then show ?case by simp
next
  case (Cons j js)
  obtain y where "gradient_y (snd (img_size img)) n j = Inr y"
    using gradient_y_total by blast
  then show ?case
    using Cons.IH by (simp split: sum.splits)
qed

lemma analyze_vertical_gradient_total: "\<exists>cs. analyze_vertical_gradient img n = Inr cs"
  by (simp add: analyze_vertical_gradient_def gradient_loop_total)

lemma update_fresh: "k \<notin> fst ` set al \<Longrightarrow> AList.update k v al = al @ [(k, v)]"
  by (induction al) auto

lemma zone_try_failed_read: "getpixel img (x, y) = Inl e \<Longrightarrow> zone_try img x y = Inl e"
  by (simp add: zone_try_def)

lemma zone_try_wide:
  assumes "getpixel img (x, y) = Inr p" and "has_rgb p"
  shows "zone_try img x y = Inr (pixel_color p)"
  using assms
  by (cases p) (simp_all add: zone_try_def unpack_rgb_def color_of_def has_rgb_def pixel_color_def)

lemma zone_loop_samples:
  assumes "\<And>name yp p. (name, yp) \<in> set zs \<Longrightarrow> getpixel img (zone_point img yp) = Inr p
             \<Longrightarrow> has_rgb p"
    and "distinct (map fst zs)"
    and "fst ` set acc \<inter> fst ` set zs = {}"
  shows "zone_loop img zs acc =
     acc @ concat (map (\<lambda>(name, yp). case getpixel img (zone_point img yp) of
                                       Inl e \<Rightarrow> [] | Inr p \<Rightarrow> [(name, pixel_color p)]) zs)"
  using assms
proof (induction zs arbitrary: acc)
  case Nil
  then show ?case by simp
next
  case (Cons z zs)
  obtain name yp where z: "z = (name, yp)" by (cases z)
  have fresh: "name \<notin> fst ` set acc" using Cons.prems(3) z by auto
  have pt: "(fst (img_size img) div 2, zone_y (snd (img_size img)) yp) = zone_point img yp"
    by (simp add: zone_point_def)
  have rest: "\<And>name yp p. (name, yp) \<in> set zs \<Longrightarrow> getpixel img (zone_point img yp) = Inr p
             \<Longrightarrow> has_rgb p"
    using Cons.prems(1) by (meson list.set_intros(2))
  have dz: "distinct (map fst zs)" using Cons.prems(2) by simp
  show ?case
  proof (cases "getpixel img (zone_point img yp)")
    case (Inl e)
    then have t: "zone_try img (fst (img_size img) div 2) (zone_y (snd (img_size img)) yp) = Inl e"
      using zone_try_failed_read pt by metis
    have "fst ` set acc \<inter> fst ` set zs = {}" using Cons.prems(3) by auto
    from Cons.IH [OF rest dz this] show ?thesis
      using Inl t z by simp
  next
    case (Inr p)
    then have "has_rgb p" using Cons.prems(1) [of name yp p] z by simp
    then have t: "zone_try img (fst (img_size img) div 2) (zone_y (snd (img_size img)) yp)
                    = Inr (pixel_color p)"
      using zone_try_wide Inr pt by metis
    have "fst ` set (acc @ [(name, pixel_color p)]) \<inter> fst ` set zs = {}"
      using Cons.prems(2,3) z by auto
    from Cons.IH [OF rest dz this] show ?thesis
      using Inr t z fresh by (simp add: update_fresh)
  qed
qed

lemma zones_distinct: "distinct (map fst zones)"
  by (simp add: zones_def)

text \<open>
  C8 fails on a grayscale image. In an image whose pixels are numbers and whose top row
  cannot be read, the read of the first of three samples fails and the read of the
  second succeeds, and yet the second sample is not in the result: the result is empty.
  The sample is lost to \<open>len\<close> raising on a number, inside the same \<open>try\<close>.
\<close>

theorem grayscale_read_success_not_sampled:
  "getpixel (broken_top_image (PInt 7)) (gradient_point (broken_top_image (PInt 7)) 3 0)
     = Inl OSError
   \<and> getpixel (broken_top_image (PInt 7)) (gradient_point (broken_top_image (PInt 7)) 3 1)
     = Inr (PInt 7)
   \<and> analyze_vertical_gradient (broken_top_image (PInt 7)) 3 = Inr []"
  by code_simp

text \<open>
  Failed reads on an image of three channels or more. Take an image whose reads, where
  they succeed, return pixels of at least three channels, and a number of samples other
  than one. Then neither sampler fails,
  and each returns, in sampling order, exactly the samples of the points whose read
  succeeds: a sample whose read fails is left out and every other one is there, with
  the colour of its pixel. A failure of \<open>analyze_image\<close> after a successful open is one
  of the brightness analysis, never one of a sample.
\<close>

lemma failed_read_drops_only_its_sample:
  assumes "wide_pixels img" and "num_samples \<noteq> 1"
  shows "analyze_vertical_gradient img num_samples =
           Inr (concat (map (\<lambda>i. case getpixel img (gradient_point img num_samples i) of
                                   Inl e \<Rightarrow> []
                                 | Inr p \<Rightarrow> [gradient_sample_of num_samples i p])
                         [0 .. num_samples - 1]))
    \<and> analyze_sky_zones img =
           concat (map (\<lambda>(zone_name, y_percent).
                          case getpixel img (zone_point img y_percent) of
                            Inl e \<Rightarrow> []
                          | Inr p \<Rightarrow> [(zone_name, pixel_color p)]) zones)
    \<and> (image_open path = Inr img \<and> snd (analyze_image image_open path) = Inl e
         \<longrightarrow> analyze_brightness img = Inl e)"
proof (intro conjI impI)
  have w: "\<And>xy p. getpixel img xy = Inr p \<Longrightarrow> has_rgb p"
    using assms(1) unfolding wide_pixels_def by blast
  show "analyze_vertical_gradient img num_samples =
           Inr (concat (map (\<lambda>i. case getpixel img (gradient_point img num_samples i) of
                                   Inl e \<Rightarrow> []
                                 | Inr p \<Rightarrow> [gradient_sample_of num_samples i p])
                         [0 .. num_samples - 1]))"
  proof (cases "1 < num_samples")
    case True
    from gradient_loop_samples [OF True, of "[0 .. num_samples - 1]" img "[]"] w
    show ?thesis by (simp add: analyze_vertical_gradient_def)
  next
    case False
    with assms(2) have "num_samples - 1 < 0" by simp
    then have "[0 .. num_samples - 1] = []" by simp
    then show ?thesis by (simp add: analyze_vertical_gradient_def)
  qed
  from zone_loop_samples [of zones img "[]"] w zones_distinct
  show "analyze_sky_zones img =
           concat (map (\<lambda>(zone_name, y_percent).
                          case getpixel img (zone_point img y_percent) of
                            Inl e \<Rightarrow> []
                          | Inr p \<Rightarrow> [(zone_name, pixel_color p)]) zones)"
    by (simp add: analyze_sky_zones_def)
next
  assume a: "image_open path = Inr img \<and> snd (analyze_image image_open path) = Inl e"
  obtain cs where "analyze_vertical_gradient img 10 = Inr cs"
    using analyze_vertical_gradient_total by blast
  with a show "analyze_brightness img = Inl e"
    by (auto simp: analyze_image_def Let_def split: option.splits sum.splits)
qed

lemma failed_read_drops_only_its_sample_witness:
  "wide_pixels (broken_top_image (PTuple [10, 20, 30])) \<and> (3::int) \<noteq> 1
   \<and> getpixel (broken_top_image (PTuple [10, 20, 30]))
        (gradient_point (broken_top_image (PTuple [10, 20, 30])) 3 0) = Inl OSError
   \<and> analyze_vertical_gradient (broken_top_image (PTuple [10, 20, 30])) 3 =
        Inr [gradient_sample_of 3 1 (PTuple [10, 20, 30]),
             gradient_sample_of 3 2 (PTuple [10, 20, 30])]
   \<and> analyze_sky_zones (broken_top_image (PTuple [10, 20, 30])) =
        [(''upper_sky'', pixel_color (PTuple [10, 20, 30])),
         (''mid_sky'', pixel_color (PTuple [10, 20, 30])),
         (''lower_sky'', pixel_color (PTuple [10, 20, 30])),
         (''horizon'', pixel_color (PTuple [10, 20, 30])),
         (''water_line'', pixel_color (PTuple [10, 20, 30]))]"
proof -
  let ?img = "broken_top_image (PTuple [10, 20, 30])"
  have w: "wide_pixels ?img"
    by (auto simp: wide_pixels_def broken_top_image_def has_rgb_def split: if_splits)
  have up: "[0 .. (2::int)] = [0, 1, 2]"
    by code_simp
  have g0: "gradient_point ?img 3 0 = (0, 0)" by code_simp
  have g1: "gradient_point ?img 3 1 = (0, 2)" by code_simp
  have g2: "gradient_point ?img 3 2 = (0, 3)" by code_simp
  have z1: "zone_point ?img (float_lit (1 / 20)) = (0, 0)" by code_simp
  have z2: "zone_point ?img (float_lit (1 / 4)) = (0, 1)" by code_simp
  have z3: "zone_point ?img (float_lit (1 / 2)) = (0, 2)" by code_simp
  have z4: "zone_point ?img (float_lit (3 / 4)) = (0, 3)" by code_simp
  have z5: "zone_point ?img (float_lit (9 / 10)) = (0, 3)" by code_simp
  have z6: "zone_point ?img (float_lit (19 / 20)) = (0, 3)" by code_simp
  have rd: "getpixel ?img (0, 0) = Inl OSError" "getpixel ?img (0, 1) = Inr (PTuple [10, 20, 30])"
    "getpixel ?img (0, 2) = Inr (PTuple [10, 20, 30])"
    "getpixel ?img (0, 3) = Inr (PTuple [10, 20, 30])"
    by (simp_all add: broken_top_image_def)
  have three: "(3::int) \<noteq> 1" by simp
  note char = failed_read_drops_only_its_sample [OF w three, where image_open = example_open
      and path = "[]" and e = OSError]
  from char have "analyze_vertical_gradient ?img 3 =
          Inr [gradient_sample_of 3 1 (PTuple [10, 20, 30]),
               gradient_sample_of 3 2 (PTuple [10, 20, 30])]"
    by (simp add: up g0 g1 g2 rd)
  moreover from char have "analyze_sky_zones ?img =
        [(''upper_sky'', pixel_color (PTuple [10, 20, 30])),
         (''mid_sky'', pixel_color (PTuple [10, 20, 30])),
         (''lower_sky'', pixel_color (PTuple [10, 20, 30])),
         (''horizon'', pixel_color (PTuple [10, 20, 30])),
         (''water_line'', pixel_color (PTuple [10, 20, 30]))]"
    by (simp add: rd zones_def z1 z2 z3 z4 z5 z6)
  ultimately have "analyze_vertical_gradient ?img 3 =
          Inr [gradient_sample_of 3 1 (PTuple [10, 20, 30]),
               gradient_sample_of 3 2 (PTuple [10, 20, 30])]
     \<and> analyze_sky_zones ?img =
        [(''upper_sky'', pixel_color (PTuple [10, 20, 30])),
         (''mid_sky'', pixel_color (PTuple [10, 20, 30])),
         (''lower_sky'', pixel_color (PTuple [10, 20, 30])),
         (''horizon'', pixel_color (PTuple [10, 20, 30])),
         (''water_line'', pixel_color (PTuple [10, 20, 30]))]"
    by simp
  with w g0 rd show ?thesis by simp
qed

subsection \<open>Solid images\<close>

lemma py_int_nonneg: "0 \<le> x \<Longrightarrow> 0 \<le> py_int x"
  by (simp add: py_int_def)

lemma solid_gradient_read:
  assumes "solid_rgb img r g b" and "0 \<le> i" and "1 < n"
  shows "getpixel img (gradient_point img n i) = Inr (PTuple [r, g, b])"
proof -
  let ?w = "fst (img_size img)" and ?h = "snd (img_size img)"
  from assms(1) have w: "0 < ?w" and h: "0 < ?h"
    and rd: "\<And>x y. 0 \<le> x \<Longrightarrow> x < ?w \<Longrightarrow> 0 \<le> y \<Longrightarrow> y < ?h
               \<Longrightarrow> getpixel img (x, y) = Inr (PTuple [r, g, b])"
    by (simp_all add: solid_rgb_def)
  have x: "0 \<le> ?w div 2" "?w div 2 < ?w" using w by simp_all
  have "0 \<le> rat_of_int (?h * i) / rat_of_int (n - 1)"
    using h assms(2,3) by simp
  then have "0 \<le> py_int (fl (rat_of_int (?h * i) / rat_of_int (n - 1)))"
    by (intro py_int_nonneg fl_nonneg)
  then have y: "0 \<le> snd (gradient_point img n i)" "snd (gradient_point img n i) < ?h"
    using h by (simp_all add: gradient_point_def)
  have "gradient_point img n i = (?w div 2, snd (gradient_point img n i))"
    by (simp add: gradient_point_def)
  with rd [OF x y] show ?thesis by simp
qed

lemma zones_nonneg: "(name, yp) \<in> set zones \<Longrightarrow> 0 \<le> yp"
  by (auto simp: zones_def float_lit_def intro: fl_nonneg)

lemma solid_zone_read:
  assumes "solid_rgb img r g b" and "0 \<le> yp"
  shows "getpixel img (zone_point img yp) = Inr (PTuple [r, g, b])"
proof -
  let ?w = "fst (img_size img)" and ?h = "snd (img_size img)"
  from assms(1) have w: "0 < ?w" and h: "0 < ?h"
    and rd: "\<And>x y. 0 \<le> x \<Longrightarrow> x < ?w \<Longrightarrow> 0 \<le> y \<Longrightarrow> y < ?h
               \<Longrightarrow> getpixel img (x, y) = Inr (PTuple [r, g, b])"
    by (simp_all add: solid_rgb_def)
  have x: "0 \<le> ?w div 2" "?w div 2 < ?w" using w by simp_all
  have "0 \<le> float_of_int ?h" using h by (simp add: float_of_int_def fl_nonneg)
  then have "0 \<le> float_mul (float_of_int ?h) yp"
    using assms(2) by (simp add: float_mul_def fl_nonneg)
  then have "0 \<le> py_int (float_mul (float_of_int ?h) yp)" by (rule py_int_nonneg)
  then have y: "0 \<le> zone_y ?h yp" "zone_y ?h yp < ?h"
    using h by (simp_all add: zone_y_def)
  from rd [OF x y] show ?thesis by (simp add: zone_point_def)
qed

text \<open>
  Two samples or more on a solid image. On a solid RGB image of positive width and height the
  vertical gradient has all \<open>num_samples\<close> samples and the zones are all six, and each
  sample has the RGB triple, the hex string and the float triple of the colour.
\<close>

lemma solid_image_samples:
  assumes "solid_rgb img r g b" and "2 \<le> num_samples"
  shows "analyze_vertical_gradient img num_samples =
           Inr (map (\<lambda>i. gradient_sample_of num_samples i (PTuple [r, g, b]))
                  [0 .. num_samples - 1])
    \<and> analyze_sky_zones img =
           map (\<lambda>(zone_name, y_percent). (zone_name, pixel_color (PTuple [r, g, b]))) zones
    \<and> pixel_color (PTuple [r, g, b])
         = \<lparr>rgb = (r, g, b), hex = rgb_to_hex r g b, godot = rgb_to_godot r g b\<rparr>"
proof (intro conjI)
  have n: "1 < num_samples" using assms(2) by simp
  have rgb: "has_rgb (PTuple [r, g, b])" by (simp add: has_rgb_def)
  have rd: "getpixel img (gradient_point img num_samples i) = Inr (PTuple [r, g, b])"
    if "i \<in> set [0 .. num_samples - 1]" for i
    using that solid_gradient_read [OF assms(1) _ n] by simp
  have "gradient_loop img num_samples [0 .. num_samples - 1] [] =
     Inr ([] @ concat (map (\<lambda>i. case getpixel img (gradient_point img num_samples i) of
               Inl e \<Rightarrow> [] | Inr p \<Rightarrow> [gradient_sample_of num_samples i p])
          [0 .. num_samples - 1]))"
  proof (rule gradient_loop_samples [OF n])
    fix i p
    assume "i \<in> set [0 .. num_samples - 1]"
      and "getpixel img (gradient_point img num_samples i) = Inr p"
    then show "has_rgb p" using rd rgb by simp
  qed
  also have "concat (map (\<lambda>i. case getpixel img (gradient_point img num_samples i) of
               Inl e \<Rightarrow> [] | Inr p \<Rightarrow> [gradient_sample_of num_samples i p])
          [0 .. num_samples - 1])
      = concat (map (\<lambda>i. [gradient_sample_of num_samples i (PTuple [r, g, b])])
          [0 .. num_samples - 1])"
    by (rule arg_cong [where f = concat], rule map_cong) (simp_all add: rd)
  also have "\<dots> = map (\<lambda>i. gradient_sample_of num_samples i (PTuple [r, g, b]))
                     [0 .. num_samples - 1]"
    by (induction "[0 .. num_samples - 1]") (simp_all add: concat_map_singleton)
  finally show "analyze_vertical_gradient img num_samples =
           Inr (map (\<lambda>i. gradient_sample_of num_samples i (PTuple [r, g, b]))
                  [0 .. num_samples - 1])"
    by (simp add: analyze_vertical_gradient_def)
  have zr: "getpixel img (zone_point img yp) = Inr (PTuple [r, g, b])"
    if "(name, yp) \<in> set zones" for name yp
    using that solid_zone_read [OF assms(1)] zones_nonneg by blast
  have "zone_loop img zones [] =
     [] @ concat (map (\<lambda>(name, yp). case getpixel img (zone_point img yp) of
                         Inl e \<Rightarrow> [] | Inr p \<Rightarrow> [(name, pixel_color p)]) zones)"
  proof (rule zone_loop_samples)
    fix name yp p
    assume "(name, yp) \<in> set zones" and "getpixel img (zone_point img yp) = Inr p"
    then show "has_rgb p" using zr rgb by simp
  qed (simp_all add: zones_distinct)
  also have "concat (map (\<lambda>(name, yp). case getpixel img (zone_point img yp) of
                         Inl e \<Rightarrow> [] | Inr p \<Rightarrow> [(name, pixel_color p)]) zones)
      = concat (map (\<lambda>(name, yp). [(name, pixel_color (PTuple [r, g, b]))]) zones)"
    by (rule arg_cong [where f = concat], rule map_cong) (auto simp: zr)
  also have "\<dots> = map (\<lambda>(name, yp). (name, pixel_color (PTuple [r, g, b]))) zones"
    by (simp add: zones_def)
  finally show "analyze_sky_zones img =
           map (\<lambda>(zone_name, y_percent). (zone_name, pixel_color (PTuple [r, g, b]))) zones"
    by (simp add: analyze_sky_zones_def)
  show "pixel_color (PTuple [r, g, b])
         = \<lparr>rgb = (r, g, b), hex = rgb_to_hex r g b, godot = rgb_to_godot r g b\<rparr>"
    by (simp add: pixel_color_def)
qed

subsection \<open>What the parser accepts\<close>

lemma re_match_iff:
  "re_match s = Some (a, b) \<longleftrightarrow>
     (\<exists>c d1 d2. (s = [c, d1, d2] \<or> s = [c, d1, d2, CHR 0x0A])
        \<and> c \<in> set ''WENSU'' \<and> is_digit d1 \<and> is_digit d2 \<and> a = [c] \<and> b = [d1, d2])"
  by (auto simp: re_match_def split: list.splits if_splits)

text \<open>
  The parser returns an orientation and an hour exactly for the stems that, in upper
  case, are one of the five letters and two digits of an hour up to 23, or that followed
  by a newline.
\<close>

lemma parse_some_iff:
  "parse_orientation_hour_from_filename f = Some (orient, hr) \<longleftrightarrow>
     (\<exists>c d1 d2.
        (upper (path_stem f) = [c, d1, d2] \<or> upper (path_stem f) = [c, d1, d2, CHR 0x0A])
        \<and> c \<in> set ''WENSU'' \<and> is_digit d1 \<and> is_digit d2
        \<and> orient = [c] \<and> hr = 10 * digit_val d1 + digit_val d2 \<and> hr \<le> 23)"
proof -
  have dv: "0 \<le> digit_val d" if "is_digit d" for d
    using that by (simp add: is_digit_def digit_val_def)
  show ?thesis
  proof (cases "re_match (upper (path_stem f))")
    case None
    have "\<not> (\<exists>c d1 d2.
        (upper (path_stem f) = [c, d1, d2] \<or> upper (path_stem f) = [c, d1, d2, CHR 0x0A])
        \<and> c \<in> set ''WENSU'' \<and> is_digit d1 \<and> is_digit d2
        \<and> orient = [c] \<and> hr = 10 * digit_val d1 + digit_val d2 \<and> hr \<le> 23)"
    proof
      assume "\<exists>c d1 d2.
        (upper (path_stem f) = [c, d1, d2] \<or> upper (path_stem f) = [c, d1, d2, CHR 0x0A])
        \<and> c \<in> set ''WENSU'' \<and> is_digit d1 \<and> is_digit d2
        \<and> orient = [c] \<and> hr = 10 * digit_val d1 + digit_val d2 \<and> hr \<le> 23"
      then obtain c d1 d2 where
        "(upper (path_stem f) = [c, d1, d2] \<or> upper (path_stem f) = [c, d1, d2, CHR 0x0A])
          \<and> c \<in> set ''WENSU'' \<and> is_digit d1 \<and> is_digit d2"
        by blast
      then have "re_match (upper (path_stem f)) = Some ([c], [d1, d2])"
        using re_match_iff [of "upper (path_stem f)" "[c]" "[d1, d2]"] by blast
      with None show False by simp
    qed
    moreover have "parse_orientation_hour_from_filename f = None"
      using None by (simp add: parse_orientation_hour_from_filename_def Let_def)
    ultimately show ?thesis by simp
  next
    case (Some ab)
    obtain a b where ab: "ab = (a, b)" by (cases ab)
    from Some ab re_match_iff [of "upper (path_stem f)" a b]
    obtain c d1 d2 where m: "upper (path_stem f) = [c, d1, d2]
          \<or> upper (path_stem f) = [c, d1, d2, CHR 0x0A]"
      and cs: "c \<in> set ''WENSU''" "is_digit d1" "is_digit d2" "a = [c]" "b = [d1, d2]"
      by blast
    have h: "int_of_digits b = 10 * digit_val d1 + digit_val d2"
      using cs by (simp add: int_of_digits_def)
    have nn: "0 \<le> int_of_digits b" using h dv cs by simp
    show ?thesis
      using Some ab m cs h nn
      by (auto simp: parse_orientation_hour_from_filename_def Let_def)
  qed
qed

subsection \<open>The rows of the vertical gradient\<close>

lemma ilog2_lower:
  assumes "0 < x"
  shows "power_int 2 (ilog2 x) \<le> x"
proof (cases "1 \<le> x")
  case True
  define n where "n = \<lfloor>x\<rfloor>"
  have n1: "1 \<le> n" using True by (simp add: n_def le_floor_iff)
  then have b: "(2::int) ^ nat (bitlen n - 1) \<le> n"
    using bitlen_bounds [of n] by simp
  have k: "0 \<le> bitlen n - 1"
    using n1 bitlen_ge_iff_power [of 1 n] by simp
  have "power_int (2::rat) (bitlen n - 1) = 2 ^ nat (bitlen n - 1)"
    using k by (simp add: power_int_def)
  also have "\<dots> = rat_of_int (2 ^ nat (bitlen n - 1))" by simp
  also have "\<dots> \<le> rat_of_int n" using b by (simp only: of_int_le_iff)
  also have "\<dots> \<le> x" by (simp add: n_def)
  finally show ?thesis using True by (simp add: ilog2_def n_def)
next
  case False
  define c where "c = \<lceil>1 / x\<rceil>"
  have "1 < 1 / x" using False assms by simp
  then have c2: "2 \<le> c" unfolding c_def by (simp add: le_ceiling_iff)
  define k where "k = bitlen (c - 1)"
  have "c - 1 < 2 ^ nat k"
    using bitlen_bounds [of "c - 1"] c2 by (simp add: k_def)
  then have "c \<le> 2 ^ nat k" by simp
  then have "rat_of_int c \<le> rat_of_int (2 ^ nat k)" by (simp only: of_int_le_iff)
  then have ck: "rat_of_int c \<le> 2 ^ nat k" by simp
  have "1 / x \<le> rat_of_int c" by (simp add: c_def)
  from this ck have "1 / x \<le> 2 ^ nat k" by (rule order_trans)
  then have "1 \<le> 2 ^ nat k * x"
    using assms by (simp add: field_simps)
  then have x: "1 / 2 ^ nat k \<le> x" by (simp add: field_simps)
  have k0: "0 \<le> k" by (simp add: k_def bitlen_nonneg)
  have "power_int (2::rat) (- k) = 1 / 2 ^ nat k"
    using k0 by (cases "k = 0") (simp_all add: power_int_def inverse_eq_divide power_one_over)
  with x show ?thesis using False by (simp add: ilog2_def c_def k_def)
qed

lemma round_half_even_error: "\<bar>rat_of_int (round_half_even q) - q\<bar> \<le> 1 / 2"
proof -
  have "rat_of_int \<lfloor>q\<rfloor> \<le> q" "q < rat_of_int \<lfloor>q\<rfloor> + 1" by linarith+
  then show ?thesis by (auto simp: round_half_even_def Let_def)
qed

text \<open>Rounding to a float changes a positive number by at most its \<open>2\<^sup>-\<^sup>5\<^sup>3\<close>-th part.\<close>

lemma fl_error:
  assumes "0 < x"
  shows "\<bar>fl x - x\<bar> \<le> x / 2 ^ 53"
proof -
  define u :: rat where "u = power_int 2 (ilog2 x - 52)"
  have u0: "0 < u" by (simp add: u_def zero_less_power_int)
  have "u = power_int 2 (ilog2 x) / 2 ^ 52"
    by (simp add: u_def power_int_diff)
  also have "\<dots> \<le> x / 2 ^ 52"
    using ilog2_lower [OF assms] by (simp add: divide_right_mono)
  finally have ux: "u \<le> x / 2 ^ 52" .
  have ab: "\<bar>x\<bar> = x" using assms by simp
  have f: "fl x = of_int (round_half_even (x / u)) * u"
    using assms unfolding fl_def Let_def ab u_def by simp
  have "fl x - x = (of_int (round_half_even (x / u)) - x / u) * u"
    using u0 by (simp add: f field_simps)
  then have "\<bar>fl x - x\<bar> = \<bar>of_int (round_half_even (x / u)) - x / u\<bar> * u"
    using u0 by (simp add: abs_mult)
  also have "\<dots> \<le> (1 / 2) * u"
    using round_half_even_error [of "x / u"] u0 by (intro mult_right_mono) simp_all
  also have "\<dots> \<le> (1 / 2) * (x / 2 ^ 52)"
    using ux by simp
  also have "\<dots> = x / 2 ^ 53" by simp
  finally show ?thesis .
qed

text \<open>
  The float quotient of two integers, truncated, is their integer quotient, as long as
  the numerator is below \<open>2\<^sup>5\<^sup>3\<close>.
\<close>

lemma truediv_floor:
  assumes "0 \<le> a" and "0 < b" and "a < 2 ^ 53"
  shows "py_int (fl (rat_of_int a / rat_of_int b)) = a div b"
proof (cases "a = 0")
  case True
  then show ?thesis by (simp add: fl_def py_int_def)
next
  case False
  define q where "q = rat_of_int a / rat_of_int b"
  define m where "m = a div b"
  define r where "r = a mod b"
  have a: "a = m * b + r" by (simp add: m_def r_def)
  have r: "0 \<le> r" "r < b" using assms(2) by (simp_all add: r_def)
  have bq: "0 < rat_of_int b" using assms(2) by simp
  have q0: "0 < q" using False assms(1,2) by (simp add: q_def)
  have qm: "q = rat_of_int m + rat_of_int r / rat_of_int b"
    using bq by (simp add: q_def a field_simps)
  have "rat_of_int a < rat_of_int (2 ^ 53)" using assms(3) by (simp only: of_int_less_iff)
  then have a53: "rat_of_int a < 2 ^ 53" by simp
  have lt1: "rat_of_int a / 2 ^ 53 < 1" using a53 by simp
  have "q / 2 ^ 53 = (rat_of_int a / 2 ^ 53) / rat_of_int b" by (simp add: q_def)
  also have "\<dots> < 1 / rat_of_int b"
    using lt1 bq by (rule divide_strict_right_mono)
  finally have small: "q / 2 ^ 53 < 1 / rat_of_int b" .
  have err: "\<bar>fl q - q\<bar> \<le> q / 2 ^ 53" using fl_error [OF q0] .
  have "r \<le> b - 1" using r by simp
  then have "rat_of_int r \<le> rat_of_int (b - 1)" by (simp only: of_int_le_iff)
  then have "rat_of_int r / rat_of_int b \<le> (rat_of_int b - 1) / rat_of_int b"
    using bq by (simp add: divide_right_mono)
  also have "\<dots> = 1 - 1 / rat_of_int b" using bq by (simp add: field_simps)
  finally have "q \<le> rat_of_int m + 1 - 1 / rat_of_int b" by (simp add: qm)
  with err small have upper: "fl q < rat_of_int m + 1" by linarith
  have lower: "rat_of_int m \<le> fl q"
  proof (cases "r = 0")
    case True
    then have "q = rat_of_int m" by (simp add: qm)
    moreover have "0 \<le> m" using q0 calculation by simp
    moreover have "m \<le> a"
    proof -
      have "m * 1 \<le> m * b" using \<open>0 \<le> m\<close> assms(2) by (intro mult_left_mono) simp_all
      then show ?thesis using a True by simp
    qed
    ultimately show ?thesis using fl_of_int_exact [of m] assms(3) by simp
  next
    case False
    then have "1 \<le> r" using r by simp
    then have "rat_of_int 1 \<le> rat_of_int r" by (simp only: of_int_le_iff)
    then have "1 / rat_of_int b \<le> rat_of_int r / rat_of_int b"
      using bq by (simp add: divide_right_mono)
    then have "rat_of_int m + 1 / rat_of_int b \<le> q" by (simp add: qm)
    with err small show ?thesis by linarith
  qed
  have "0 \<le> fl q" using q0 by (simp add: fl_nonneg)
  then have "py_int (fl q) = \<lfloor>fl q\<rfloor>" by (simp add: py_int_def)
  also have "\<dots> = m" using lower upper by (simp add: floor_unique)
  finally show ?thesis by (simp add: q_def m_def)
qed

text \<open>
  Two samples or more. The sample of index \<open>i\<close> is read at the horizontal
  midpoint, in the row \<open>min (\<lfloor>h i / (N - 1)\<rfloor>) (h - 1)\<close>, for every product \<open>h i\<close> below
  \<open>2\<^sup>5\<^sup>3\<close>; the first row is 0 and the last is \<open>h - 1\<close>.
\<close>

lemma gradient_rows:
  assumes "1 \<le> snd (img_size img)" and "2 \<le> num_samples" and "0 \<le> i"
    and "snd (img_size img) * i < 2 ^ 53"
  shows "gradient_point img num_samples i =
           (fst (img_size img) div 2,
            min ((snd (img_size img) * i) div (num_samples - 1)) (snd (img_size img) - 1))"
proof -
  let ?h = "snd (img_size img)"
  have n: "0 < num_samples - 1" using assms(2) by simp
  have "0 \<le> ?h * i" using assms(1,3) by simp
  from truediv_floor [OF this n assms(4)]
  show ?thesis by (simp add: gradient_point_def)
qed

lemma gradient_rows_ends:
  assumes "1 \<le> snd (img_size img)" and "2 \<le> num_samples"
    and "snd (img_size img) * (num_samples - 1) < 2 ^ 53"
  shows "gradient_point img num_samples 0 = (fst (img_size img) div 2, 0)"
    and "gradient_point img num_samples (num_samples - 1) =
           (fst (img_size img) div 2, snd (img_size img) - 1)"
proof -
  have "snd (img_size img) * 0 < 2 ^ 53" by simp
  from gradient_rows [OF assms(1,2) _ this]
  show "gradient_point img num_samples 0 = (fst (img_size img) div 2, 0)"
    using assms(1) by simp
  have "0 \<le> num_samples - 1" using assms(2) by simp
  from gradient_rows [OF assms(1,2) this assms(3)]
  show "gradient_point img num_samples (num_samples - 1) =
           (fst (img_size img) div 2, snd (img_size img) - 1)"
    using assms(2) by simp
qed

lemma gradient_rows_1080:
  "map (gradient_point (solid_image 1920 1080 (PTuple [0, 0, 0])) 10) [0, 1, 2, 3, 4, 5, 6, 7, 8, 9]
     = [(960, 0), (960, 120), (960, 240), (960, 360), (960, 480), (960, 600), (960, 720),
        (960, 840), (960, 960), (960, 1079)]"
  by code_simp

end
